theory Spec2Isabelle
  imports Main "HOL-Library.Sublist"
begin

section \<open>The import filter of \<open>ci/filter_imports.py\<close>\<close>

text \<open>
  The script reads its input line by line and copies every line to standard output,
  except the lines that start with \<open>import\<close> and do not mention \<open>import Foundation\<close>:
  \<^verbatim>\<open>
  for line in fileinput.input():
      if line.startswith('import'):
          if "import Foundation" in line:
              sys.stdout.write(line)
      else:
          sys.stdout.write(line)
  \<close>
  A line is a \<^typ>\<open>string\<close>, terminator included, as the iteration yields it.
  Standard output is the list of the chunks written so far, oldest first; the text
  on the stream is their concatenation.
\<close>

subsection \<open>The two string tests\<close>

text \<open>\<open>s.startswith(p)\<close>: \<open>p\<close> is an initial segment of \<open>s\<close>.\<close>

fun startswith :: "string \<Rightarrow> string \<Rightarrow> bool" where
  "startswith s [] = True"
| "startswith [] (p # ps) = False"
| "startswith (c # cs) (p # ps) = (c = p \<and> startswith cs ps)"

text \<open>\<open>sub in s\<close>: \<open>sub\<close> occurs in \<open>s\<close> at some position.\<close>

fun str_in :: "string \<Rightarrow> string \<Rightarrow> bool" where
  "str_in sub [] = startswith [] sub"
| "str_in sub (c # cs) = (startswith (c # cs) sub \<or> str_in sub cs)"

text \<open>The characters Python's \<open>str.isspace\<close> accepts among the ASCII ones.\<close>

definition isspace :: "char \<Rightarrow> bool" where
  "isspace c = (c \<in> set [CHR '' '', CHR 0x09, CHR 0x0A, CHR 0x0B, CHR 0x0C, CHR 0x0D,
                          CHR 0x1C, CHR 0x1D, CHR 0x1E, CHR 0x1F])"

subsection \<open>Standard output and the loop\<close>

type_synonym stdout = "string list"

definition stdout_write :: "stdout \<Rightarrow> string \<Rightarrow> stdout" where
  "stdout_write out s = out @ [s]"

definition stdout_text :: "stdout \<Rightarrow> string" where
  "stdout_text out = concat out"

text \<open>The body of the loop, for one line.\<close>

definition filter_line :: "string \<Rightarrow> stdout \<Rightarrow> stdout" where
  "filter_line line out =
     (if startswith line ''import'' then
        (if str_in ''import Foundation'' line then stdout_write out line else out)
      else stdout_write out line)"

text \<open>The loop over the lines the iteration yields.\<close>

fun filter_loop :: "string list \<Rightarrow> stdout \<Rightarrow> stdout" where
  "filter_loop [] out = out"
| "filter_loop (line # rest) out = filter_loop rest (filter_line line out)"

text \<open>A run of the script on the lines of its input, standard output empty at the start.\<close>

definition filter_imports :: "string list \<Rightarrow> stdout" where
  "filter_imports lines = filter_loop lines []"

text \<open>
  The condition under which the body writes its line: the two nested tests of the loop
  read as one predicate (see \<open>filter_line_keeps\<close> below).
\<close>

definition keeps :: "string \<Rightarrow> bool" where
  "keeps line =
     (if startswith line ''import'' then str_in ''import Foundation'' line else True)"

subsection \<open>Reading the input\<close>


text \<open>
  Iterating over the translated stream yields its lines with the terminator kept: a
  line ends after each line feed, and what follows the last line feed, when it is not
  empty, is a final line without terminator. \<open>cur\<close> is the part of the current line
  read so far.
\<close>

fun readlines_from :: "string \<Rightarrow> string \<Rightarrow> string list" where
  "readlines_from cur [] = (if cur = [] then [] else [cur])"
| "readlines_from cur (c # cs) =
     (if c = CHR 0x0A then (cur @ [c]) # readlines_from [] cs
      else readlines_from (cur @ [c]) cs)"

definition readlines :: "string \<Rightarrow> string list" where
  "readlines text = readlines_from [] text"


text \<open>
  \<open>fileinput.input()\<close> walks the input sources in the order of the command line
  (standard input alone when no file is named) and opens each one when the one before
  is exhausted. A source either opens and delivers its text, or cannot be opened, or
  delivers the lines of some text and then fails on a read. The failure is an
  exception that nothing in the script catches: the run ends there, with what was
  written so far on standard output. The text of a source is what the input layer
  delivers: for a named file, its bytes with the line ends translated.
\<close>

datatype source = Readable string | Unreadable | Broken string


datatype error = OSError

fun run :: "source list \<Rightarrow> stdout \<Rightarrow> stdout \<times> (error + unit)" where
  "run [] out = (out, Inr ())"
| "run (Readable text # later) out = run later (filter_loop (readlines text) out)"
| "run (Unreadable # later) out = (out, Inl OSError)"
| "run (Broken text # later) out = (filter_loop (readlines text) out, Inl OSError)"

text \<open>
  The shape of the lines one stream yields: none is empty, a line feed stands only at
  the end of a line, and every line but the last has one.
\<close>

definition terminated :: "string \<Rightarrow> bool" where
  "terminated l = (l \<noteq> [] \<and> last l = CHR 0x0A \<and> CHR 0x0A \<notin> set (butlast l))"

fun stream_lines :: "string list \<Rightarrow> bool" where
  "stream_lines [] = True"
| "stream_lines [l] = (l \<noteq> [] \<and> CHR 0x0A \<notin> set (butlast l))"
| "stream_lines (l # l' # ls) = (terminated l \<and> stream_lines (l' # ls))"

subsection \<open>The tests against the library's notions\<close>

lemma startswith_prefix: "startswith s p \<longleftrightarrow> prefix p s"
  by (induction s p rule: startswith.induct) auto

lemma str_in_sublist: "str_in sub s \<longleftrightarrow> sublist sub s"
  by (induction s) (auto simp: startswith_prefix sublist_Cons_right)

lemma startswith_append: "startswith (p @ r) p"
  by (simp add: startswith_prefix)

subsection \<open>The loop as a filter\<close>

lemma filter_line_keeps: "filter_line line out = (if keeps line then out @ [line] else out)"
  by (simp add: filter_line_def keeps_def stdout_write_def)

lemma filter_loop_filter: "filter_loop lines out = out @ filter keeps lines"
  by (induction lines arbitrary: out) (simp_all add: filter_line_keeps)

lemma filter_imports_filter: "filter_imports lines = filter keeps lines"
  by (simp add: filter_imports_def filter_loop_filter)

lemma space_first_no_import: "isspace c \<Longrightarrow> \<not> startswith (c # cs) ''import''"
  by (auto simp: isspace_def)

lemma whitespace_no_import: "list_all isspace line \<Longrightarrow> \<not> startswith line ''import''"
  by (cases line) (auto simp: isspace_def)

lemma filter_loop_append: "filter_loop (xs @ ys) out = filter_loop ys (filter_loop xs out)"
  by (simp add: filter_loop_filter)

text \<open>
  Where a kept line lands in the output: behind the kept lines among those that precede
  it in the input.
\<close>

lemma filter_position:
  "i < length xs \<Longrightarrow> P (xs ! i) \<Longrightarrow>
   length (filter P (take i xs)) < length (filter P xs) \<and>
   filter P xs ! length (filter P (take i xs)) = xs ! i"
proof -
  assume i: "i < length xs" and p: "P (xs ! i)"
  from i have "xs = take i xs @ xs ! i # drop (Suc i) xs" by (rule id_take_nth_drop)
  then have "filter P xs = filter P (take i xs @ xs ! i # drop (Suc i) xs)" by simp
  also have "\<dots> = filter P (take i xs) @ xs ! i # filter P (drop (Suc i) xs)"
    using p by simp
  finally show ?thesis by (simp add: nth_append)
qed

lemma filter_position_mono:
  "i < j \<Longrightarrow> j \<le> length xs \<Longrightarrow> P (xs ! i) \<Longrightarrow>
   length (filter P (take i xs)) < length (filter P (take j xs))"
proof -
  assume ij: "i < j" and j: "j \<le> length xs" and p: "P (xs ! i)"
  from ij j have "i < length (take j xs)" by simp
  moreover from ij p have "P (take j xs ! i)" by simp
  ultimately have "length (filter P (take i (take j xs))) < length (filter P (take j xs))"
    using filter_position [of i "take j xs" P] by blast
  moreover from ij have "take i (take j xs) = take i xs" by (simp add: min_def)
  ultimately show ?thesis by simp
qed

subsection \<open>Reading loses nothing\<close>



lemma readlines_from_line:
  "CHR 0x0A \<notin> set a \<Longrightarrow>
   readlines_from cur (a @ CHR 0x0A # s) = (cur @ a @ [CHR 0x0A]) # readlines_from [] s"
  by (induction a arbitrary: cur) auto

lemma readlines_from_rest:
  "CHR 0x0A \<notin> set a \<Longrightarrow> readlines_from cur a = (if cur @ a = [] then [] else [cur @ a])"
  by (induction a arbitrary: cur) auto




subsection \<open>The lines of one stream\<close>

lemma terminated_snoc: "terminated l \<longleftrightarrow> (\<exists>a. l = a @ [CHR 0x0A] \<and> CHR 0x0A \<notin> set a)"
  by (cases l rule: rev_cases) (simp_all add: terminated_def)

lemma stream_lines_Cons: "terminated l \<Longrightarrow> stream_lines ls \<Longrightarrow> stream_lines (l # ls)"
  by (cases ls) (simp_all add: terminated_def)

lemma stream_lines_tl: "stream_lines (l # ls) \<Longrightarrow> stream_lines ls"
  by (cases ls) simp_all

lemma stream_lines_hd: "stream_lines (l # ls) \<Longrightarrow> ls \<noteq> [] \<Longrightarrow> terminated l"
  by (cases ls) simp_all

lemma stream_lines_single: "stream_lines (l # ls) \<Longrightarrow> stream_lines [l]"
  by (cases ls) (simp_all add: terminated_def)

lemma stream_lines_readlines_from:
  "CHR 0x0A \<notin> set cur \<Longrightarrow> stream_lines (readlines_from cur s)"
proof (induction s arbitrary: cur)
  case Nil
  then show ?case by (cases cur rule: rev_cases) simp_all
next
  case (Cons c cs)
  show ?case
  proof (cases "c = CHR 0x0A")
    case True
    have "terminated (cur @ [c])" using True Cons.prems by (simp add: terminated_def)
    moreover have "stream_lines (readlines_from [] cs)" by (rule Cons.IH) simp
    ultimately show ?thesis using True by (simp add: stream_lines_Cons)
  next
    case False
    then have "CHR 0x0A \<notin> set (cur @ [c])" using Cons.prems by simp
    then have "stream_lines (readlines_from (cur @ [c]) cs)" by (rule Cons.IH)
    then show ?thesis using False by simp
  qed
qed

lemma stream_lines_readlines: "stream_lines (readlines s)"
  by (simp add: readlines_def stream_lines_readlines_from)

lemma readlines_terminated: "terminated l \<Longrightarrow> readlines (l @ s) = l # readlines s"
proof -
  assume "terminated l"
  then obtain a where l: "l = a @ [CHR 0x0A]" and a: "CHR 0x0A \<notin> set a"
    by (auto simp: terminated_snoc)
  from a have "readlines_from [] (a @ CHR 0x0A # s) = ([] @ a @ [CHR 0x0A]) # readlines_from [] s"
    by (rule readlines_from_line)
  then show ?thesis by (simp add: l readlines_def)
qed

lemma readlines_single: "stream_lines [l] \<Longrightarrow> readlines l = [l]"
proof (cases l rule: rev_cases)
  case Nil
  assume "stream_lines [l]"
  with Nil show ?thesis by simp
next
  case (snoc a c)
  assume "stream_lines [l]"
  with snoc have a: "CHR 0x0A \<notin> set a" by simp
  show ?thesis
  proof (cases "c = CHR 0x0A")
    case True
    with a snoc have "terminated l" by (simp add: terminated_def)
    then have "readlines (l @ []) = l # readlines []" by (rule readlines_terminated)
    then show ?thesis by (simp add: readlines_def)
  next
    case False
    with a snoc have "CHR 0x0A \<notin> set l" by simp
    then show ?thesis using snoc by (simp add: readlines_def readlines_from_rest)
  qed
qed

text \<open>Lines of that shape, written one after the other, are read back as they were.\<close>

lemma readlines_concat: "stream_lines ls \<Longrightarrow> readlines (concat ls) = ls"
proof (induction ls rule: stream_lines.induct)
  case 1
  show ?case by (simp add: readlines_def)
next
  case (2 l)
  then show ?case by (simp add: readlines_single)
next
  case (3 l l' ls)
  then show ?case by (simp add: readlines_terminated)
qed

lemma stream_lines_filter: "stream_lines ls \<Longrightarrow> stream_lines (filter P ls)"
proof (induction ls)
  case Nil
  show ?case by simp
next
  case (Cons l ls)
  from Cons.prems have "stream_lines ls" by (rule stream_lines_tl)
  then have tl: "stream_lines (filter P ls)" by (rule Cons.IH)
  show ?case
  proof (cases "P l")
    case False
    with tl show ?thesis by simp
  next
    case True
    show ?thesis
    proof (cases "filter P ls = []")
      case True
      from Cons.prems have "stream_lines [l]" by (rule stream_lines_single)
      with True \<open>P l\<close> show ?thesis by simp
    next
      case False
      then have "ls \<noteq> []" by auto
      with Cons.prems have "terminated l" by (rule stream_lines_hd)
      with tl \<open>P l\<close> show ?thesis by (simp add: stream_lines_Cons)
    qed
  qed
qed

lemma readlines_stdout_text:
  "readlines (stdout_text (filter_imports (readlines s))) = filter_imports (readlines s)"
  by (simp add: stdout_text_def filter_imports_filter readlines_concat
      stream_lines_filter stream_lines_readlines)


subsection \<open>Runs over several sources\<close>

lemma run_readable:
  "run (map Readable texts @ later) out =
     run later (filter_loop (concat (map readlines texts)) out)"
  by (induction texts arbitrary: out) (simp_all add: filter_loop_append)


lemma run_keeps_output: "prefix out (fst (run srcs out))"
proof (induction srcs arbitrary: out)
  case Nil
  show ?case by simp
next
  case (Cons s srcs)
  show ?case
  proof (cases s)
    case (Readable t)
    have "prefix out (filter_loop (readlines t) out)" by (simp add: filter_loop_filter)
    also have "prefix \<dots> (fst (run srcs (filter_loop (readlines t) out)))"
      by (rule Cons.IH)
    finally show ?thesis using Readable by simp
  next
    case Unreadable
    then show ?thesis by simp
  next
    case (Broken t)
    then show ?thesis by (simp add: filter_loop_filter)
  qed
qed

subsection \<open>The decision for one line\<close>

text \<open>
  C1. A line that starts with \<open>import\<close> and does not contain \<open>import Foundation\<close>
  leaves standard output as it was: nothing is written for it, and a run over an input
  that holds the line writes what the run over the input without the line writes.
\<close>

theorem other_import_dropped:
  "startswith line ''import'' \<Longrightarrow> \<not> str_in ''import Foundation'' line \<Longrightarrow>
   filter_line line out = out \<and>
   filter_loop (before @ line # after) out = filter_loop (before @ after) out"
  by (simp add: filter_loop_filter keeps_def filter_line_def)

theorem other_import_dropped_witness:
  "startswith ''import UIKit\<newline>'' ''import'' \<and>
   \<not> str_in ''import Foundation'' ''import UIKit\<newline>'' \<and>
   filter_line ''import UIKit\<newline>'' [''import Foundation\<newline>''] = [''import Foundation\<newline>''] \<and>
   filter_loop ([''import Foundation\<newline>''] @ ''import UIKit\<newline>'' # [''let x = 5\<newline>'']) [] =
     [''import Foundation\<newline>'', ''let x = 5\<newline>'']"
  using other_import_dropped [of "''import UIKit\<newline>''"
      "[''import Foundation\<newline>'']" "[''import Foundation\<newline>'']" "[''let x = 5\<newline>'']"]
    other_import_dropped [of "''import UIKit\<newline>''"
      "[]" "[''import Foundation\<newline>'']" "[''let x = 5\<newline>'']"]
  by (simp add: filter_line_def stdout_write_def)

text \<open>
  C2. A line that starts with \<open>import\<close> and contains \<open>import Foundation\<close> at any
  position is written as it is: one chunk, the line itself, is appended to standard
  output, so the text on the stream grows by exactly the characters of the line.
\<close>

theorem foundation_import_kept:
  "startswith line ''import'' \<Longrightarrow> str_in ''import Foundation'' line \<Longrightarrow>
   filter_line line out = out @ [line] \<and>
   stdout_text (filter_line line out) = stdout_text out @ line"
  by (simp add: filter_line_def stdout_write_def stdout_text_def)

theorem foundation_import_kept_witness:
  "startswith ''import FooFoundation, import Foundation'' ''import'' \<and>
   str_in ''import Foundation'' ''import FooFoundation, import Foundation'' \<and>
   filter_line ''import FooFoundation, import Foundation'' [] =
     [''import FooFoundation, import Foundation''] \<and>
   stdout_text (filter_line ''import FooFoundation, import Foundation'' []) =
     ''import FooFoundation, import Foundation''"
  using foundation_import_kept [of "''import FooFoundation, import Foundation''" "[]"]
  by (simp add: stdout_text_def)

text \<open>
  C3. A line that does not start with \<open>import\<close> is written as it is. An empty line
  and a line of whitespace only are such lines.
\<close>

theorem other_line_passed_through:
  "(\<not> startswith line ''import'' \<longrightarrow> filter_line line out = out @ [line]) \<and>
   (list_all isspace line \<longrightarrow>
      \<not> startswith line ''import'' \<and> filter_line line out = out @ [line])"
  using whitespace_no_import [of line] by (simp add: filter_line_def stdout_write_def)

theorem other_line_passed_through_witness:
  "\<not> startswith ''let x = 5\<newline>'' ''import'' \<and>
   filter_line ''let x = 5\<newline>'' [] = [''let x = 5\<newline>''] \<and>
   list_all isspace [] \<and> filter_line [] [] = [[]] \<and>
   list_all isspace [CHR '' '', CHR 0x09, CHR 0x0A] \<and>
   filter_line [CHR '' '', CHR 0x09, CHR 0x0A] [] = [[CHR '' '', CHR 0x09, CHR 0x0A]]"
  using other_line_passed_through [of "''let x = 5\<newline>''" "[]"]
    other_line_passed_through [of "[]" "[]"]
    other_line_passed_through [of "[CHR '' '', CHR 0x09, CHR 0x0A]" "[]"]
  by (simp add: isspace_def)

text \<open>
  C4. A line with one or more whitespace characters in front of \<open>import\<close> fails the
  prefix test, which looks at the raw line, and is written as it is, whatever follows
  the word.
\<close>

theorem indented_import_passed_through:
  "ws \<noteq> [] \<Longrightarrow> list_all isspace ws \<Longrightarrow>
   \<not> startswith (ws @ ''import'' @ rest) ''import'' \<and>
   filter_line (ws @ ''import'' @ rest) out = out @ [ws @ ''import'' @ rest]"
proof -
  assume ne: "ws \<noteq> []" and sp: "list_all isspace ws"
  from ne obtain w ws' where ws: "ws = w # ws'" by (cases ws) auto
  with sp have "isspace w" by simp
  then have "\<not> startswith (w # ws' @ ''import'' @ rest) ''import''"
    by (rule space_first_no_import)
  then show ?thesis by (simp add: ws filter_line_def stdout_write_def)
qed

theorem indented_import_passed_through_witness:
  "''  '' \<noteq> [] \<and> list_all isspace ''  '' \<and>
   \<not> startswith ''  import UIKit\<newline>'' ''import'' \<and>
   filter_line ''  import UIKit\<newline>'' [] = [''  import UIKit\<newline>'']"
  using indented_import_passed_through [of "''  ''" "'' UIKit\<newline>''" "[]"]
  by (simp add: isspace_def)

text \<open>
  C10. The prefix test knows no word boundary: whatever follows the six characters
  \<open>import\<close>, the line is written only when it contains \<open>import Foundation\<close>. A line
  that starts with \<open>important\<close> or \<open>imports\<close> is dropped like an import.
\<close>

theorem import_prefix_without_word_boundary:
  "filter_line (''import'' @ rest) out =
     (if str_in ''import Foundation'' (''import'' @ rest)
      then out @ [''import'' @ rest] else out) \<and>
   filter_line ''important note\<newline>'' out = out \<and>
   filter_line ''imports\<newline>'' out = out \<and>
   filter_line ''important: import Foundation\<newline>'' out =
     out @ [''important: import Foundation\<newline>'']"
  by (simp add: filter_line_def stdout_write_def)

subsection \<open>The whole output\<close>

text \<open>
  C5. The chunks written are the kept lines of the input, in the order of the input:
  the output is a subsequence of the input (no line is moved, repeated or merged with
  another), and of two kept lines the one that comes first in the input comes first in
  the output. The line at position \<open>i\<close> of the input, when kept, is the chunk whose
  position is the number of chunks written for the lines before it.
\<close>

theorem output_in_input_order:
  "filter_imports lines = filter keeps lines \<and>
   subseq (filter_imports lines) lines \<and>
   (i < j \<and> j < length lines \<and> keeps (lines ! i) \<and> keeps (lines ! j) \<longrightarrow>
      length (filter_imports (take i lines)) < length (filter_imports (take j lines)) \<and>
      length (filter_imports (take j lines)) < length (filter_imports lines) \<and>
      filter_imports lines ! length (filter_imports (take i lines)) = lines ! i \<and>
      filter_imports lines ! length (filter_imports (take j lines)) = lines ! j)"
  using filter_position [of i lines keeps] filter_position [of j lines keeps]
    filter_position_mono [of i j lines keeps]
  by (simp add: filter_imports_filter)

theorem output_in_input_order_witness:
  "(0::nat) < 2 \<and>
   (2::nat) < length [''import Foundation\<newline>'', ''import UIKit\<newline>'', ''let x = 5\<newline>''] \<and>
   keeps ([''import Foundation\<newline>'', ''import UIKit\<newline>'', ''let x = 5\<newline>''] ! 0) \<and>
   keeps ([''import Foundation\<newline>'', ''import UIKit\<newline>'', ''let x = 5\<newline>''] ! 2) \<and>
   filter_imports [''import Foundation\<newline>'', ''import UIKit\<newline>'', ''let x = 5\<newline>''] =
     [''import Foundation\<newline>'', ''let x = 5\<newline>''] \<and>
   length (filter_imports
     (take 0 [''import Foundation\<newline>'', ''import UIKit\<newline>'', ''let x = 5\<newline>''])) = 0 \<and>
   length (filter_imports
     (take 2 [''import Foundation\<newline>'', ''import UIKit\<newline>'', ''let x = 5\<newline>''])) = 1"
  using output_in_input_order
    [of "[''import Foundation\<newline>'', ''import UIKit\<newline>'', ''let x = 5\<newline>'']" 0 2]
  by (simp add: keeps_def filter_imports_def filter_line_def stdout_write_def)







text \<open>
  C8. The decision for a line depends on the line alone: the body appends to standard
  output, whatever it holds, what a run over that single line writes. So the run over
  a sequence writes the concatenation of what the runs over its lines write, and the
  run over two sequences one after the other writes what the two runs write, one after
  the other.
\<close>

theorem filter_per_line:
  "filter_imports (xs @ ys) = filter_imports xs @ filter_imports ys \<and>
   filter_loop (xs @ ys) out = filter_loop ys (filter_loop xs out) \<and>
   filter_line line out = out @ filter_imports [line] \<and>
   filter_imports xs = concat (map (\<lambda>line. filter_imports [line]) xs)"
proof -
  have "filter keeps xs = concat (map (\<lambda>line. filter keeps [line]) xs)"
    by (induction xs) simp_all
  then show ?thesis
    by (simp add: filter_imports_filter filter_loop_filter filter_line_keeps)
qed

theorem filter_per_line_witness:
  "filter_imports ([''import Foundation\<newline>'', ''import UIKit\<newline>''] @ [''let x = 5\<newline>'']) =
     [''import Foundation\<newline>'', ''let x = 5\<newline>''] \<and>
   filter_imports [''import Foundation\<newline>'', ''import UIKit\<newline>''] =
     [''import Foundation\<newline>''] \<and>
   filter_imports [''let x = 5\<newline>''] = [''let x = 5\<newline>'']"
  using filter_per_line
    [of "[''import Foundation\<newline>'', ''import UIKit\<newline>'']" "[''let x = 5\<newline>'']" "[]" "[]"]
  by (simp add: filter_imports_def filter_line_def stdout_write_def)

subsection \<open>A source that fails\<close>

text \<open>
  C9. When a source cannot be opened, or fails on a read, the run ends with the error:
  the sources after it are not looked at, and standard output holds what the lines
  read before the failure produced. A run never takes back what was written. A run
  over sources that can all be read ends without error, whatever their lines are.
\<close>

theorem failing_source_ends_run:
  "run (map Readable texts @ Unreadable # later) out =
     (filter_loop (concat (map readlines texts)) out, Inl OSError) \<and>
   run (map Readable texts @ Broken s # later) out =
     (filter_loop (concat (map readlines (texts @ [s]))) out, Inl OSError) \<and>
   run (map Readable texts) out =
     (filter_loop (concat (map readlines texts)) out, Inr ()) \<and>
   prefix out (fst (run srcs out))"
  using run_readable [of texts "[]" out]
  by (simp add: run_readable run_keeps_output filter_loop_append)

theorem failing_source_ends_run_witness:
  "run (map Readable [''import UIKit\<newline>let x = 5\<newline>''] @ Unreadable #
        [Readable ''let y = 6\<newline>'']) [] =
     ([''let x = 5\<newline>''], Inl OSError) \<and>
   run (map Readable [''import UIKit\<newline>let x = 5\<newline>'', ''let y = 6\<newline>'']) [] =
     ([''let x = 5\<newline>'', ''let y = 6\<newline>''], Inr ())"
  using failing_source_ends_run
      [of "[''import UIKit\<newline>let x = 5\<newline>'']" "[Readable ''let y = 6\<newline>'']" "[]" "[]" "[]"]
    failing_source_ends_run
      [of "[''import UIKit\<newline>let x = 5\<newline>'', ''let y = 6\<newline>'']" "[]" "[]" "[]" "[]"]
  by (simp add: readlines_def filter_line_def stdout_write_def)

end
